theory Spec2Isabelle
  imports Main "HOL-Library.Sublist"
begin

section \<open>The page: a tree of elements\<close>

text \<open>
  The script of \<^verbatim>\<open>js-sample.js\<close> reads and writes four things of an element: its tag
  name, its class list, its \<^verbatim>\<open>type\<close> attribute and whether it is displayed; and it
  binds click listeners to it. An element of the model carries exactly these, and its
  child elements in document order. Text nodes are not modelled: a click is always
  targeted at an element. An animation is modelled by the display state it ends in.
\<close>

record props =
  tag :: string
  classes :: "string list"
  attr_type :: "string option"
  hidden :: bool
  click_handlers :: nat

text \<open>
  \<open>hidden\<close> is \<^verbatim>\<open>display: none\<close> on the element itself. \<open>click_handlers\<close> counts the
  listeners bound by \<^verbatim>\<open>$container.on('click', ...)\<close>: the script binds one function
  only, so the listeners of an element are copies of the same closure.
\<close>

datatype element = Element props "element list"

fun props_of :: "element \<Rightarrow> props" where
  "props_of (Element pr ks) = pr"

fun children :: "element \<Rightarrow> element list" where
  "children (Element pr ks) = ks"

text \<open>
  A reference to an element (what a jQuery object holds) is its path from the root:
  the child indices to follow.
\<close>

type_synonym path = "nat list"

fun node_at :: "element \<Rightarrow> path \<Rightarrow> element option" where
  "node_at e [] = Some e"
| "node_at e (i # p) =
     (if i < length (children e) then node_at (children e ! i) p else None)"

definition props_at :: "element \<Rightarrow> path \<Rightarrow> props option" where
  "props_at d p = map_option props_of (node_at d p)"

text \<open>Writing a property of the element a reference points to.\<close>

fun update_at :: "(props \<Rightarrow> props) \<Rightarrow> path \<Rightarrow> element \<Rightarrow> element" where
  "update_at f [] e = Element (f (props_of e)) (children e)"
| "update_at f (i # p) e =
     (if i < length (children e)
      then Element (props_of e) ((children e)[i := update_at f p (children e ! i)])
      else e)"

text \<open>All elements of a tree in document order (the order of a jQuery selection).\<close>

fun all_paths :: "element \<Rightarrow> path list"
  and child_paths :: "nat \<Rightarrow> element list \<Rightarrow> path list" where
  "all_paths (Element pr ks) = [] # child_paths 0 ks"
| "child_paths i [] = []"
| "child_paths i (k # ks) = map ((#) i) (all_paths k) @ child_paths (Suc i) ks"

section \<open>Selectors\<close>

definition has_class :: "string \<Rightarrow> element \<Rightarrow> path \<Rightarrow> bool" where
  "has_class c d p =
     (case props_at d p of None \<Rightarrow> False | Some pr \<Rightarrow> c \<in> set (classes pr))"

definition has_tag :: "string \<Rightarrow> element \<Rightarrow> path \<Rightarrow> bool" where
  "has_tag t d p = (case props_at d p of None \<Rightarrow> False | Some pr \<Rightarrow> tag pr = t)"

text \<open>The proper ancestors of an element, the root first.\<close>

definition ancestors :: "path \<Rightarrow> path list" where
  "ancestors p = butlast (prefixes p)"

text \<open>
  \<^verbatim>\<open>.checklist .container.collapsible\<close>: an element with the classes \<^verbatim>\<open>container\<close> and
  \<^verbatim>\<open>collapsible\<close> that is a descendant of an element with the class \<^verbatim>\<open>checklist\<close>.
\<close>

definition matches_container :: "element \<Rightarrow> path \<Rightarrow> bool" where
  "matches_container d p \<longleftrightarrow>
     has_class ''container'' d p \<and> has_class ''collapsible'' d p \<and>
     list_ex (has_class ''checklist'' d) (ancestors p)"

text \<open>\<^verbatim>\<open>$('.checklist .container.collapsible')\<close>\<close>

definition select_containers :: "element \<Rightarrow> path list" where
  "select_containers d = filter (matches_container d) (all_paths d)"

text \<open>\<^verbatim>\<open>$container.find('pre')\<close>: the descendants of the container with tag \<^verbatim>\<open>pre\<close>.\<close>

definition find_pre :: "element \<Rightarrow> path \<Rightarrow> path list" where
  "find_pre d p = filter (\<lambda>q. strict_prefix p q \<and> has_tag ''pre'' d q) (all_paths d)"

text \<open>\<^verbatim>\<open>$(e.target).is('input[type="checkbox"]')\<close> and \<^verbatim>\<open>$(e.target).is('pre')\<close>\<close>

definition is_checkbox :: "element \<Rightarrow> path \<Rightarrow> bool" where
  "is_checkbox d p =
     (case props_at d p of None \<Rightarrow> False
      | Some pr \<Rightarrow> tag pr = ''input'' \<and> attr_type pr = Some ''checkbox'')"

definition is_pre :: "element \<Rightarrow> path \<Rightarrow> bool" where
  "is_pre d p = has_tag ''pre'' d p"

section \<open>The effects of the library calls\<close>

text \<open>\<^verbatim>\<open>.hide()\<close> on a selection: every element of it gets \<^verbatim>\<open>display: none\<close>.\<close>

definition hide :: "path list \<Rightarrow> element \<Rightarrow> element" where
  "hide ps d = fold (update_at (\<lambda>pr. pr\<lparr>hidden := True\<rparr>)) ps d"

text \<open>
  \<^verbatim>\<open>.slideToggle(200)\<close> on a selection: every element of it that is hidden ends shown,
  every other one ends hidden.
\<close>

definition slideToggle :: "path list \<Rightarrow> element \<Rightarrow> element" where
  "slideToggle ps d = fold (update_at (\<lambda>pr. pr\<lparr>hidden := \<not> hidden pr\<rparr>)) ps d"

text \<open>\<^verbatim>\<open>.toggleClass(c)\<close>: removes the class \<open>c\<close> where present, adds it where absent.\<close>

definition toggle_in :: "string \<Rightarrow> string list \<Rightarrow> string list" where
  "toggle_in c cs = (if c \<in> set cs then removeAll c cs else cs @ [c])"

definition toggleClass :: "string \<Rightarrow> path \<Rightarrow> element \<Rightarrow> element" where
  "toggleClass c p d = update_at (\<lambda>pr. pr\<lparr>classes := toggle_in c (classes pr)\<rparr>) p d"

text \<open>\<^verbatim>\<open>.on('click', handler)\<close>: one more listener on the element.\<close>

definition on_click :: "path \<Rightarrow> element \<Rightarrow> element" where
  "on_click p d = update_at (\<lambda>pr. pr\<lparr>click_handlers := Suc (click_handlers pr)\<rparr>) p d"

section \<open>The script\<close>

text \<open>
  A click event: the element clicked (\<^verbatim>\<open>e.target\<close>) and, with it, what
  \<^verbatim>\<open>window.getSelection().toString()\<close> returns while the event is dispatched.
\<close>

record click_event =
  target :: path
  selection :: string

text \<open>
  The listener bound at lines 8 to 22, run with \<^verbatim>\<open>this\<close> the container it is bound
  to. The state it works on is the page and the event's flag set by
  \<^verbatim>\<open>e.stopPropagation()\<close>.
\<close>

definition ignored :: "click_event \<Rightarrow> element \<Rightarrow> bool" where
  "ignored e d \<longleftrightarrow>
     is_checkbox d (target e) \<or> is_pre d (target e) \<or> selection e \<noteq> ''''"

definition click_handler ::
  "click_event \<Rightarrow> path \<Rightarrow> element \<times> bool \<Rightarrow> element \<times> bool" where
  "click_handler e this s =
     (case s of (d, stopped) \<Rightarrow>
        if ignored e d then (d, stopped)
        else
          let d1 = toggleClass ''active'' this d;
              d2 = slideToggle (find_pre d1 this) d1
          in (d2, True))"

text \<open>
  The body of \<^verbatim>\<open>each\<close> at lines 5 to 25 for one container, and \<^verbatim>\<open>initCollapsible\<close>:
  the selection is computed once, then the body runs on each element of it.
\<close>

definition init_container :: "path \<Rightarrow> element \<Rightarrow> element" where
  "init_container p d = (let d1 = on_click p d in hide (find_pre d1 p) d1)"

definition initCollapsible :: "element \<Rightarrow> element" where
  "initCollapsible d = fold init_container (select_containers d) d"

section \<open>Event dispatch\<close>

text \<open>
  A click bubbles from its target to the root. On each element on the way all its
  listeners run, in the order they were bound; \<^verbatim>\<open>stopPropagation\<close> lets the remaining
  listeners of the current element run and keeps the event from the ancestors.
\<close>

definition run_listeners :: "click_event \<Rightarrow> path \<Rightarrow> element \<times> bool \<Rightarrow> element \<times> bool" where
  "run_listeners e p s =
     (case props_at (fst s) p of None \<Rightarrow> s
      | Some pr \<Rightarrow> (click_handler e p ^^ click_handlers pr) s)"

fun bubble :: "click_event \<Rightarrow> path list \<Rightarrow> element \<Rightarrow> element" where
  "bubble e [] d = d"
| "bubble e (p # ps) d =
     (case run_listeners e p (d, False) of
        (d1, stopped) \<Rightarrow> if stopped then d1 else bubble e ps d1)"

definition click :: "click_event \<Rightarrow> element \<Rightarrow> element" where
  "click e d = bubble e (rev (prefixes (target e))) d"

text \<open>
  Insertion of an element as the \<open>i\<close>-th child of the element at \<open>p\<close>, and the
  \<^verbatim>\<open>DOMNodeInserted\<close> event it fires at the inserted element. The listener of line 33
  is delegated from the document with the selector \<^verbatim>\<open>.checklist\<close>: it runs once for
  every element from the event's target up to the root that has the class
  \<^verbatim>\<open>checklist\<close>, and each run calls \<^verbatim>\<open>initCollapsible\<close>.
\<close>

fun insert_child :: "path \<Rightarrow> nat \<Rightarrow> element \<Rightarrow> element \<Rightarrow> element" where
  "insert_child [] i new e =
     Element (props_of e) (take i (children e) @ new # drop i (children e))"
| "insert_child (j # p) i new e =
     (if j < length (children e)
      then Element (props_of e) ((children e)[j := insert_child p i new (children e ! j)])
      else e)"

definition node_inserted :: "path \<Rightarrow> element \<Rightarrow> element" where
  "node_inserted t d =
     (initCollapsible ^^ length (filter (has_class ''checklist'' d) (rev (prefixes t)))) d"

definition insert_node :: "path \<Rightarrow> nat \<Rightarrow> element \<Rightarrow> element \<Rightarrow> element" where
  "insert_node p i new d =
     (case node_at d p of
        None \<Rightarrow> d
      | Some parent \<Rightarrow>
          node_inserted (p @ [min i (length (children parent))]) (insert_child p i new d))"

text \<open>Page load: the ready handler runs \<^verbatim>\<open>initCollapsible\<close> once (line 30).\<close>

definition page_ready :: "element \<Rightarrow> element" where
  "page_ready d = initCollapsible d"

section \<open>Observations\<close>

text \<open>What a test of the page observes of the element a reference points to.\<close>

definition is_hidden :: "element \<Rightarrow> path \<Rightarrow> bool" where
  "is_hidden d p = (case props_at d p of None \<Rightarrow> False | Some pr \<Rightarrow> hidden pr)"

definition listeners :: "element \<Rightarrow> path \<Rightarrow> nat" where
  "listeners d p = (case props_at d p of None \<Rightarrow> 0 | Some pr \<Rightarrow> click_handlers pr)"

section \<open>Sample pages\<close>

definition el :: "string \<Rightarrow> string list \<Rightarrow> element list \<Rightarrow> element" where
  "el t cs ks =
     Element \<lparr>tag = t, classes = cs, attr_type = None, hidden = False, click_handlers = 0\<rparr> ks"

definition checkbox :: element where
  "checkbox =
     Element \<lparr>tag = ''input'', classes = [], attr_type = Some ''checkbox'', hidden = False,
              click_handlers = 0\<rparr> []"

text \<open>A checklist with one collapsible step: a checkbox, a label and a code block.\<close>

definition page_step :: element where
  "page_step =
     el ''body'' []
       [el ''div'' [''checklist'']
         [el ''div'' [''container'', ''collapsible'']
           [checkbox, el ''span'' [] [], el ''pre'' [] []]]]"

definition click_label :: click_event where
  "click_label = \<lparr>target = [0, 0, 1], selection = ''''\<rparr>"

definition click_checkbox :: click_event where
  "click_checkbox = \<lparr>target = [0, 0, 0], selection = ''''\<rparr>"

definition click_code :: click_event where
  "click_code = \<lparr>target = [0, 0, 2], selection = ''''\<rparr>"

definition click_selecting :: click_event where
  "click_selecting = \<lparr>target = [0, 0, 1], selection = ''git''\<rparr>"

text \<open>A step with two code blocks, one of them inside a wrapper.\<close>

definition page_two_pre :: element where
  "page_two_pre =
     el ''body'' []
       [el ''div'' [''checklist'']
         [el ''div'' [''container'', ''collapsible'']
           [el ''pre'' [] [], el ''div'' [] [el ''pre'' [] []]]]]"

text \<open>An element that carries all three classes itself, under no checklist.\<close>

definition page_unrooted :: element where
  "page_unrooted =
     el ''body'' []
       [el ''div'' [''checklist'', ''container'', ''collapsible'']
         [el ''span'' [] [], el ''pre'' [] []]]"

text \<open>A step without a code block.\<close>

definition page_no_pre :: element where
  "page_no_pre =
     el ''body'' []
       [el ''div'' [''checklist'']
         [el ''div'' [''container'', ''collapsible''] [el ''span'' [] []]]]"

definition click_no_pre :: click_event where
  "click_no_pre = \<lparr>target = [0, 0, 0], selection = ''''\<rparr>"

text \<open>A checklist with two steps, the second one without a code block.\<close>

definition page_mixed :: element where
  "page_mixed =
     el ''body'' []
       [el ''div'' [''checklist'']
         [el ''div'' [''container'', ''collapsible''] [el ''span'' [] [], el ''pre'' [] []],
          el ''div'' [''container'', ''collapsible''] [el ''span'' [] []]]]"

text \<open>A page without any container.\<close>

definition page_plain :: element where
  "page_plain = el ''body'' [] [el ''div'' [''checklist''] [el ''pre'' [] []]]"

text \<open>A checklist inside a checklist, and a step to insert into a page.\<close>

definition new_step :: element where
  "new_step = el ''div'' [''container'', ''collapsible''] [el ''span'' [] [], el ''pre'' [] []]"

definition page_nested :: element where
  "page_nested =
     el ''body'' []
       [el ''div'' [''checklist'']
         [el ''div'' [''checklist''] [new_step]]]"

definition page_nested_static :: element where
  "page_nested_static =
     el ''body'' []
       [el ''div'' [''checklist'']
         [el ''div'' [''checklist''] [new_step, new_step]]]"

definition click_inserted :: click_event where
  "click_inserted = \<lparr>target = [0, 0, 1, 0], selection = ''''\<rparr>"

definition click_wrapper :: click_event where
  "click_wrapper = \<lparr>target = [0, 0, 1], selection = ''''\<rparr>"

definition click_unrooted :: click_event where
  "click_unrooted = \<lparr>target = [0, 0], selection = ''''\<rparr>"

definition click_new :: click_event where
  "click_new = \<lparr>target = [0, 1, 0], selection = ''''\<rparr>"

text \<open>The page with its step expanded by a click on the label.\<close>

definition page_expanded :: element where
  "page_expanded = click click_label (page_ready page_step)"

text \<open>The loaded page after one more element has been inserted into the checklist.\<close>

definition page_reinit :: element where
  "page_reinit = insert_node [0] 1 (el ''div'' [] []) (page_ready page_step)"

text \<open>The loaded page after two steps have been inserted, one after the other.\<close>

definition page_two_inserts :: element where
  "page_two_inserts =
     insert_node [0] 2 new_step (insert_node [0] 1 new_step (page_ready page_step))"


section \<open>References and writes\<close>

lemma child_paths_eq:
  "child_paths i ks = concat (map (\<lambda>j. map ((#) (i + j)) (all_paths (ks ! j))) [0..<length ks])"
proof (induction ks arbitrary: i)
  case Nil
  then show ?case by simp
next
  case (Cons k ks)
  have "[0..<length (k # ks)] = 0 # map Suc [0..<length ks]"
    by (simp add: upt_conv_Cons map_Suc_upt del: upt_Suc)
  then show ?case using Cons.IH [of "Suc i"]
    by (simp add: comp_def del: upt_Suc)
qed

lemma all_paths_eq:
  "all_paths e = [] # concat (map (\<lambda>j. map ((#) j) (all_paths (children e ! j))) [0..<length (children e)])"
  by (cases e) (simp add: child_paths_eq)

lemma all_paths_mem: "p \<in> set (all_paths e) \<longleftrightarrow> node_at e p \<noteq> None"
proof (induction p arbitrary: e)
  case Nil
  then show ?case by (subst all_paths_eq) simp
next
  case (Cons i p)
  have "i # p \<in> set (all_paths e) \<longleftrightarrow>
        i < length (children e) \<and> p \<in> set (all_paths (children e ! i))"
    by (subst all_paths_eq) auto
  then show ?case by (simp add: Cons.IH)
qed

lemma child_paths_head: "p \<in> set (child_paths i ks) \<Longrightarrow> \<exists>j q. p = j # q \<and> i \<le> j"
  by (auto simp: child_paths_eq)

lemma paths_distinct:
  "distinct (all_paths e)" "distinct (child_paths i ks)"
proof (induction e and i ks rule: all_paths_child_paths.induct)
  case (1 pr ks)
  then show ?case by (auto dest: child_paths_head)
next
  case (2 i)
  then show ?case by simp
next
  case (3 i k ks)
  then show ?case by (auto simp: distinct_map dest!: child_paths_head)
qed

lemma all_paths_update_at: "all_paths (update_at f p e) = all_paths e"
proof (induction p arbitrary: e)
  case Nil
  then show ?case by (cases e) simp
next
  case (Cons i p)
  show ?case
  proof (cases "i < length (children e)")
    case True
    have "\<And>j. j < length (children e) \<Longrightarrow>
        all_paths ((children e)[i := update_at f p (children e ! i)] ! j) = all_paths (children e ! j)"
      using True by (simp add: nth_list_update Cons.IH)
    then have "map (\<lambda>x. map ((#) x)
                 (all_paths ((children e)[i := update_at f p (children e ! i)] ! x)))
            [0..<length (children e)]
          = map (\<lambda>x. map ((#) x) (all_paths (children e ! x))) [0..<length (children e)]"
      by (intro map_cong) auto
    then have "child_paths 0 ((children e)[i := update_at f p (children e ! i)])
        = child_paths 0 (children e)"
      unfolding child_paths_eq by (simp only: length_list_update add_0)
    then have "all_paths (Element (props_of e) ((children e)[i := update_at f p (children e ! i)]))
        = all_paths (Element (props_of e) (children e))"
      by (simp only: all_paths.simps)
    then show ?thesis using True by (cases e) simp
  next
    case False
    then show ?thesis by simp
  qed
qed

lemma props_at_update_at:
  "props_at (update_at f p e) q =
     (if q = p then map_option f (props_at e q) else props_at e q)"
proof (induction p arbitrary: e q)
  case Nil
  then show ?case by (cases q) (simp_all add: props_at_def)
next
  case (Cons i p)
  show ?case
  proof (cases q)
    case Nil
    then show ?thesis by (simp add: props_at_def)
  next
    case (Cons j r)
    then show ?thesis using Cons.IH [of "children e ! i" r]
      by (auto simp: props_at_def nth_list_update)
  qed
qed

section \<open>What initialization does to each element\<close>

lemma all_paths_fold_update_at: "all_paths (fold (update_at f) ps d) = all_paths d"
  by (induction ps arbitrary: d) (simp_all add: all_paths_update_at)

lemma props_at_fold_update_at:
  "distinct ps \<Longrightarrow>
   props_at (fold (update_at f) ps d) q =
     (if q \<in> set ps then map_option f (props_at d q) else props_at d q)"
  by (induction ps arbitrary: d) (auto simp: props_at_update_at)

lemma find_pre_distinct: "distinct (find_pre d p)"
  by (simp add: find_pre_def paths_distinct)

lemma find_pre_mem:
  "q \<in> set (find_pre d p) \<longleftrightarrow> strict_prefix p q \<and> has_tag ''pre'' d q"
  by (auto simp: find_pre_def all_paths_mem has_tag_def props_at_def split: option.splits)

lemma select_containers_distinct: "distinct (select_containers d)"
  by (simp add: select_containers_def paths_distinct)

lemma select_containers_mem:
  "p \<in> set (select_containers d) \<longleftrightarrow> matches_container d p"
  by (auto simp: select_containers_def matches_container_def all_paths_mem has_class_def
      props_at_def split: option.splits)

lemma ancestors_mem: "a \<in> set (ancestors p) \<longleftrightarrow> strict_prefix a p"
proof (cases p rule: rev_cases)
  case Nil
  then show ?thesis by (simp add: ancestors_def)
next
  case (snoc q x)
  then show ?thesis by (auto simp: ancestors_def strict_prefix_def)
qed

lemma props_at_init_container:
  "props_at (init_container p d) q =
     map_option (\<lambda>pr. pr\<lparr>hidden := hidden pr \<or> (strict_prefix p q \<and> tag pr = ''pre''),
                         click_handlers := click_handlers pr + (if q = p then 1 else 0)\<rparr>)
       (props_at d q)"
  by (cases "props_at d q")
    (auto simp: init_container_def Let_def hide_def on_click_def props_at_fold_update_at
      find_pre_distinct find_pre_mem has_tag_def props_at_update_at)

lemma all_paths_init_container: "all_paths (init_container p d) = all_paths d"
  by (simp add: init_container_def Let_def hide_def on_click_def all_paths_fold_update_at
      all_paths_update_at)

lemma all_paths_fold_init: "all_paths (fold init_container ps d) = all_paths d"
  by (induction ps arbitrary: d) (simp_all add: all_paths_init_container)

lemma props_at_fold_init:
  "props_at (fold init_container ps d) q =
     map_option (\<lambda>pr. pr\<lparr>hidden := hidden pr \<or> (tag pr = ''pre'' \<and> (\<exists>p\<in>set ps. strict_prefix p q)),
                         click_handlers := click_handlers pr + count_list ps q\<rparr>)
       (props_at d q)"
proof (induction ps arbitrary: d)
  case Nil
  then show ?case by (simp add: option.map_ident)
next
  case (Cons p ps)
  show ?case
    by (cases "props_at d q")
      (auto simp: Cons.IH props_at_init_container intro!: props.equality)
qed

lemma count_list_distinct:
  "distinct xs \<Longrightarrow> count_list xs x = (if x \<in> set xs then 1 else 0)"
  by (induction xs) auto

lemma props_at_init:
  "props_at (initCollapsible d) q =
     map_option (\<lambda>pr. pr\<lparr>hidden := hidden pr \<or>
                           (tag pr = ''pre'' \<and> (\<exists>p\<in>set (select_containers d). strict_prefix p q)),
                         click_handlers := click_handlers pr +
                           (if q \<in> set (select_containers d) then 1 else 0)\<rparr>)
       (props_at d q)"
  by (cases "props_at d q")
     (simp_all add: initCollapsible_def props_at_fold_init count_list_distinct
       select_containers_distinct)

lemma all_paths_init: "all_paths (initCollapsible d) = all_paths d"
  by (simp add: initCollapsible_def all_paths_fold_init)

lemma has_class_init: "has_class c (initCollapsible d) p = has_class c d p"
  by (simp add: has_class_def props_at_init split: option.splits)

lemma has_tag_init: "has_tag t (initCollapsible d) p = has_tag t d p"
  by (simp add: has_tag_def props_at_init split: option.splits)

lemma has_class_init_fun: "has_class c (initCollapsible d) = has_class c d"
  by (rule ext) (rule has_class_init)

lemma matches_container_init: "matches_container (initCollapsible d) = matches_container d"
  by (rule ext) (simp add: matches_container_def has_class_init_fun)

lemma select_containers_init: "select_containers (initCollapsible d) = select_containers d"
  by (simp add: select_containers_def matches_container_init all_paths_init)

lemma find_pre_init: "find_pre (initCollapsible d) p = find_pre d p"
  by (simp add: find_pre_def has_tag_init all_paths_init)

lemma is_hidden_init:
  "is_hidden (initCollapsible d) q \<longleftrightarrow>
     is_hidden d q \<or> (has_tag ''pre'' d q \<and> (\<exists>p\<in>set (select_containers d). strict_prefix p q))"
  by (auto simp: is_hidden_def has_tag_def props_at_init split: option.splits)

lemma listeners_init:
  "listeners (initCollapsible d) q =
     listeners d q + (if q \<in> set (select_containers d) then 1 else 0)"
  by (auto simp: listeners_def props_at_init select_containers_mem matches_container_def
      has_class_def split: option.splits)

lemma find_pre_on_click: "find_pre (on_click p d) p' = find_pre d p'"
proof -
  have "has_tag t (on_click p d) q = has_tag t d q" for t q
    by (auto simp: has_tag_def on_click_def props_at_update_at split: option.splits)
  then have "has_tag ''pre'' (on_click p d) = has_tag ''pre'' d"
    by (intro ext)
  then show ?thesis
    by (simp add: find_pre_def on_click_def all_paths_update_at)
qed

lemma init_container_no_pre: "find_pre d p = [] \<Longrightarrow> init_container p d = on_click p d"
  by (simp add: init_container_def Let_def find_pre_on_click hide_def)

section \<open>What a click does to each element\<close>

lemma toggle_in_mem: "c \<in> set (toggle_in c cs) \<longleftrightarrow> c \<notin> set cs"
  by (simp add: toggle_in_def)

lemma toggle_in_other: "c' \<noteq> c \<Longrightarrow> c' \<in> set (toggle_in c cs) \<longleftrightarrow> c' \<in> set cs"
  by (simp add: toggle_in_def)

lemma props_at_toggle:
  "props_at (slideToggle (find_pre (toggleClass c p d) p) (toggleClass c p d)) q =
     map_option (\<lambda>pr. pr\<lparr>classes := if q = p then toggle_in c (classes pr) else classes pr,
                         hidden := if strict_prefix p q \<and> tag pr = ''pre''
                                   then \<not> hidden pr else hidden pr\<rparr>)
       (props_at d q)"
  by (cases "props_at d q")
    (auto simp: slideToggle_def toggleClass_def props_at_fold_update_at find_pre_distinct
      find_pre_mem has_tag_def props_at_update_at intro!: props.equality)

lemma all_paths_toggle:
  "all_paths (slideToggle (find_pre (toggleClass c p d) p) (toggleClass c p d)) = all_paths d"
  by (simp add: slideToggle_def toggleClass_def all_paths_fold_update_at all_paths_update_at)

lemma props_at_click_handler:
  "\<not> ignored e d \<Longrightarrow>
   props_at (fst (click_handler e p (d, stopped))) q =
     map_option (\<lambda>pr. pr\<lparr>classes := if q = p then toggle_in ''active'' (classes pr) else classes pr,
                         hidden := if strict_prefix p q \<and> tag pr = ''pre''
                                   then \<not> hidden pr else hidden pr\<rparr>)
       (props_at d q)"
  by (simp add: click_handler_def Let_def props_at_toggle)

lemma click_handler_ignored: "ignored e d \<Longrightarrow> click_handler e p (d, stopped) = (d, stopped)"
  by (simp add: click_handler_def)

lemma click_handler_stops: "\<not> ignored e d \<Longrightarrow> snd (click_handler e p (d, stopped))"
  by (simp add: click_handler_def Let_def)

lemma ignored_click_handler: "ignored e (fst (click_handler e p s)) = ignored e (fst s)"
proof (cases s)
  case (Pair d stopped)
  show ?thesis
  proof (cases "ignored e d")
    case True
    then show ?thesis using Pair by (simp add: click_handler_ignored)
  next
    case False
    then show ?thesis using Pair
      by (simp add: ignored_def is_checkbox_def is_pre_def has_tag_def
          props_at_click_handler split: option.splits)
  qed
qed

lemma ignored_funpow:
  "ignored e (fst ((click_handler e p ^^ n) s)) = ignored e (fst s)"
  by (induction n) (simp_all add: ignored_click_handler)

lemma funpow_ignored:
  "ignored e d \<Longrightarrow> (click_handler e p ^^ n) (d, stopped) = (d, stopped)"
  by (induction n) (simp_all add: click_handler_ignored)

lemma run_listeners_ignored: "ignored e d \<Longrightarrow> run_listeners e p (d, stopped) = (d, stopped)"
  by (simp add: run_listeners_def funpow_ignored split: option.splits)

lemma bubble_ignored: "ignored e d \<Longrightarrow> bubble e ps d = d"
  by (induction ps) (simp_all add: run_listeners_ignored)

lemma run_listeners_stops:
  assumes "\<not> ignored e d" and "0 < listeners d p"
  shows "snd (run_listeners e p (d, stopped))"
proof -
  from assms(2) obtain pr where pr: "props_at d p = Some pr" and "0 < click_handlers pr"
    by (auto simp: listeners_def split: option.splits)
  then obtain m where m: "click_handlers pr = Suc m"
    by (cases "click_handlers pr") auto
  obtain d1 s1 where s1: "(click_handler e p ^^ m) (d, stopped) = (d1, s1)"
    by (cases "(click_handler e p ^^ m) (d, stopped)")
  have "\<not> ignored e d1"
    using ignored_funpow [where e = e and p = p and n = m and s = "(d, stopped)"] s1 assms(1)
    by simp
  then have "snd (click_handler e p (d1, s1))"
    by (rule click_handler_stops)
  then show ?thesis
    using pr m s1 by (simp add: run_listeners_def)
qed

lemma bubble_stops:
  assumes "\<not> ignored e d" and "0 < listeners d p"
  shows "bubble e (p # ps) d = fst (run_listeners e p (d, False))"
  using run_listeners_stops [OF assms, of False]
  by (cases "run_listeners e p (d, False)") simp

lemma matches_container_iff:
  "matches_container d p \<longleftrightarrow>
     has_class ''container'' d p \<and> has_class ''collapsible'' d p \<and>
     (\<exists>a. strict_prefix a p \<and> has_class ''checklist'' d a)"
  by (auto simp: matches_container_def list_ex_iff ancestors_mem)

lemma has_class_click_handler:
  assumes "\<not> ignored e d"
  shows "has_class c (fst (click_handler e p (d, stopped))) q \<longleftrightarrow>
           (if q = p \<and> c = ''active'' then props_at d p \<noteq> None \<and> \<not> has_class c d q
            else has_class c d q)"
  using assms
  by (auto simp: has_class_def props_at_click_handler toggle_in_mem toggle_in_other
      split: option.splits)

lemma is_hidden_click_handler:
  assumes "\<not> ignored e d"
  shows "is_hidden (fst (click_handler e p (d, stopped))) q \<longleftrightarrow>
           (if strict_prefix p q \<and> has_tag ''pre'' d q then \<not> is_hidden d q
            else is_hidden d q)"
  using assms
  by (auto simp: is_hidden_def has_tag_def props_at_click_handler split: option.splits)

lemma is_hidden_init_container:
  "is_hidden (init_container p d) q \<longleftrightarrow>
     is_hidden d q \<or> (strict_prefix p q \<and> has_tag ''pre'' d q)"
  by (auto simp: is_hidden_def has_tag_def props_at_init_container split: option.splits)

lemma run_listeners_one:
  "listeners d p = 1 \<Longrightarrow> run_listeners e p (d, stopped) = click_handler e p (d, stopped)"
  by (auto simp: listeners_def run_listeners_def split: option.splits)

lemma bubble_one_listener:
  assumes "\<not> ignored e d" and "listeners d p = 1"
  shows "bubble e (p # ps) d = fst (click_handler e p (d, False))"
proof -
  from assms(2) have "0 < listeners d p"
    by simp
  with assms(1) have "bubble e (p # ps) d = fst (run_listeners e p (d, False))"
    by (rule bubble_stops)
  with assms(2) show ?thesis
    by (simp add: run_listeners_one)
qed

section \<open>Repeated initialization\<close>

lemma has_class_funpow_init: "has_class c ((initCollapsible ^^ n) d) p = has_class c d p"
  by (induction n) (simp_all add: has_class_init)

lemma has_tag_funpow_init: "has_tag t ((initCollapsible ^^ n) d) p = has_tag t d p"
  by (induction n) (simp_all add: has_tag_init)

lemma all_paths_funpow_init: "all_paths ((initCollapsible ^^ n) d) = all_paths d"
  by (induction n) (simp_all add: all_paths_init)

lemma select_containers_funpow_init:
  "select_containers ((initCollapsible ^^ n) d) = select_containers d"
  by (induction n) (simp_all add: select_containers_init)

lemma find_pre_funpow_init: "find_pre ((initCollapsible ^^ n) d) p = find_pre d p"
  by (induction n) (simp_all add: find_pre_init)

lemma is_hidden_funpow_init: "is_hidden d q \<Longrightarrow> is_hidden ((initCollapsible ^^ n) d) q"
  by (induction n) (simp_all add: is_hidden_init)

lemma listeners_funpow_init:
  "listeners ((initCollapsible ^^ n) d) q =
     listeners d q + (if q \<in> set (select_containers d) then n else 0)"
  by (induction n) (simp_all add: listeners_init select_containers_funpow_init)

section \<open>The click handler\<close>

text \<open>
  C1. The claim: a click that is not ignored toggles the class \<^verbatim>\<open>active\<close> and the display
  state of the code block exactly once, however often initialization has run on the
  container. The script binds one more listener to every matched container each time
  \<^verbatim>\<open>initCollapsible\<close> runs, and every listener toggles. On the loaded sample page one
  click on the label expands the step. After one element has been inserted into the
  checklist the step has two listeners, and the same click toggles twice: the class and
  the display state end as they were, and the page is unchanged.
\<close>

theorem click_after_reinit_toggles_twice:
  "listeners (page_ready page_step) [0, 0] = 1 \<and>
   has_class ''active'' (click click_label (page_ready page_step)) [0, 0] \<and>
   \<not> is_hidden (click click_label (page_ready page_step)) [0, 0, 2] \<and>
   \<not> ignored click_label page_reinit \<and>
   [0, 0] \<in> set (select_containers page_reinit) \<and>
   listeners page_reinit [0, 0] = 2 \<and>
   \<not> has_class ''active'' page_reinit [0, 0] \<and>
   is_hidden page_reinit [0, 0, 2] \<and>
   \<not> has_class ''active'' (click click_label page_reinit) [0, 0] \<and>
   is_hidden (click click_label page_reinit) [0, 0, 2] \<and>
   click click_label page_reinit = page_reinit"
  by code_simp

text \<open>
  C3. A click whose target is a checkbox input or a \<^verbatim>\<open>pre\<close> element, or that arrives
  while the text selection is not empty, changes nothing: the handler returns the page
  and the event as they were, and so does the dispatch of the event through all
  listeners on the way from the target to the root.
\<close>

theorem ignored_click_changes_nothing:
  assumes "is_checkbox d (target e) \<or> is_pre d (target e) \<or> selection e \<noteq> ''''"
  shows "click_handler e this (d, stopped) = (d, stopped) \<and> click e d = d"
proof -
  from assms have i: "ignored e d"
    by (simp add: ignored_def)
  then have "click_handler e this (d, stopped) = (d, stopped)"
    by (rule click_handler_ignored)
  moreover from i have "bubble e (rev (prefixes (target e))) d = d"
    by (rule bubble_ignored)
  ultimately show ?thesis
    by (simp add: click_def)
qed

theorem ignored_click_changes_nothing_witness:
  "is_checkbox (page_ready page_step) (target click_checkbox) \<and>
   is_pre (page_ready page_step) (target click_code) \<and>
   selection click_selecting \<noteq> '''' \<and>
   0 < listeners (page_ready page_step) [0, 0] \<and>
   click click_checkbox (page_ready page_step) = page_ready page_step \<and>
   click click_code (page_ready page_step) = page_ready page_step \<and>
   click click_selecting (page_ready page_step) = page_ready page_step \<and>
   click click_label (page_ready page_step) \<noteq> page_ready page_step"
proof -
  have a: "is_checkbox (page_ready page_step) (target click_checkbox)"
    by code_simp
  have b: "is_pre (page_ready page_step) (target click_code)"
    by code_simp
  have c: "selection click_selecting \<noteq> ''''"
    by code_simp
  have d: "0 < listeners (page_ready page_step) [0, 0]"
    by code_simp
  have e: "click click_label (page_ready page_step) \<noteq> page_ready page_step"
    by code_simp
  from ignored_click_changes_nothing [of "page_ready page_step" click_checkbox]
    ignored_click_changes_nothing [of "page_ready page_step" click_code]
    ignored_click_changes_nothing [of "page_ready page_step" click_selecting]
    a b c d e
  show ?thesis by blast
qed

text \<open>
  C8. A click that is not ignored, on a container with a listener: the handler toggles
  the class \<^verbatim>\<open>active\<close> of the container and the display state of every code block in
  it, and sets the event's flag; the dispatch then ends at this container, whatever
  elements \<open>ps\<close> lie above it.
\<close>

theorem qualifying_click_stops_propagation:
  assumes "\<not> is_checkbox d (target e)" and "\<not> is_pre d (target e)" and "selection e = ''''"
    and "0 < listeners d p"
  shows "snd (click_handler e p (d, stopped)) \<and>
         (has_class ''active'' (fst (click_handler e p (d, stopped))) p
            \<longleftrightarrow> \<not> has_class ''active'' d p) \<and>
         (\<forall>q\<in>set (find_pre d p).
            is_hidden (fst (click_handler e p (d, stopped))) q \<longleftrightarrow> \<not> is_hidden d q) \<and>
         bubble e (p # ps) d = bubble e [p] d"
proof -
  from assms(1-3) have q: "\<not> ignored e d"
    by (simp add: ignored_def)
  from assms(4) have v: "props_at d p \<noteq> None"
    by (auto simp: listeners_def split: option.splits)
  have "bubble e (p # ps) d = fst (run_listeners e p (d, False))"
    using q assms(4) by (rule bubble_stops)
  also have "\<dots> = bubble e [p] d"
    using q assms(4) by (rule bubble_stops [symmetric])
  finally show ?thesis
    using q v by (simp add: click_handler_stops has_class_click_handler
        is_hidden_click_handler find_pre_mem)
qed

theorem qualifying_click_stops_propagation_witness:
  "\<not> is_checkbox (page_ready page_step) (target click_label) \<and>
   \<not> is_pre (page_ready page_step) (target click_label) \<and>
   selection click_label = '''' \<and>
   0 < listeners (page_ready page_step) [0, 0] \<and>
   snd (click_handler click_label [0, 0] (page_ready page_step, False)) \<and>
   has_class ''active'' (fst (click_handler click_label [0, 0] (page_ready page_step, False))) [0, 0] \<and>
   bubble click_label [[0, 0], [0], []] (page_ready page_step) =
     bubble click_label [[0, 0]] (page_ready page_step)"
proof -
  have a: "\<not> is_checkbox (page_ready page_step) (target click_label)"
    by code_simp
  have b: "\<not> is_pre (page_ready page_step) (target click_label)"
    by code_simp
  have c: "selection click_label = ''''"
    by code_simp
  have d: "0 < listeners (page_ready page_step) [0, 0]"
    by code_simp
  have e: "\<not> has_class ''active'' (page_ready page_step) [0, 0]"
    by code_simp
  from qualifying_click_stops_propagation [OF a b c d, of False "[[0], []]"] a b c d e
  show ?thesis by blast
qed

section \<open>Initialization\<close>

text \<open>
  C2. After \<^verbatim>\<open>initCollapsible\<close> has run, every \<^verbatim>\<open>pre\<close> element found in a container
  that matches \<^verbatim>\<open>.checklist .container.collapsible\<close> is hidden, whatever the page and
  whatever its display state was before.
\<close>

theorem init_hides_every_pre:
  assumes "p \<in> set (select_containers (initCollapsible d))"
    and "q \<in> set (find_pre (initCollapsible d) p)"
  shows "is_hidden (initCollapsible d) q"
proof -
  from assms(1) have "p \<in> set (select_containers d)"
    by (simp add: select_containers_init)
  moreover from assms(2) have "strict_prefix p q" "has_tag ''pre'' d q"
    by (simp_all add: find_pre_init find_pre_mem)
  ultimately show ?thesis
    by (auto simp: is_hidden_init)
qed

theorem init_hides_every_pre_witness:
  "[0, 0] \<in> set (select_containers (initCollapsible page_step)) \<and>
   [0, 0, 2] \<in> set (find_pre (initCollapsible page_step) [0, 0]) \<and>
   \<not> is_hidden page_step [0, 0, 2] \<and>
   is_hidden (initCollapsible page_step) [0, 0, 2]"
proof -
  have a: "[0, 0] \<in> set (select_containers (initCollapsible page_step))"
    by code_simp
  have b: "[0, 0, 2] \<in> set (find_pre (initCollapsible page_step) [0, 0])"
    by code_simp
  have c: "\<not> is_hidden page_step [0, 0, 2]"
    by code_simp
  from init_hides_every_pre [OF a b] a b c show ?thesis
    by blast
qed

text \<open>
  C4. For a matched container whose code blocks are all hidden, running
  \<^verbatim>\<open>initCollapsible\<close> \<open>n\<close> more times leaves the container matched and its code
  blocks hidden, for every \<open>n\<close>.
\<close>

theorem reinit_keeps_hidden:
  assumes "p \<in> set (select_containers d)"
    and "\<forall>q\<in>set (find_pre d p). is_hidden d q"
  shows "p \<in> set (select_containers ((initCollapsible ^^ n) d)) \<and>
         (\<forall>q\<in>set (find_pre ((initCollapsible ^^ n) d) p).
            is_hidden ((initCollapsible ^^ n) d) q)"
proof (intro conjI ballI)
  show "p \<in> set (select_containers ((initCollapsible ^^ n) d))"
    using assms(1) by (simp add: select_containers_funpow_init)
next
  fix q
  assume "q \<in> set (find_pre ((initCollapsible ^^ n) d) p)"
  then have "q \<in> set (find_pre d p)"
    by (simp add: find_pre_funpow_init)
  with assms(2) have "is_hidden d q"
    by blast
  then show "is_hidden ((initCollapsible ^^ n) d) q"
    by (rule is_hidden_funpow_init)
qed

theorem reinit_keeps_hidden_witness:
  "[0, 0] \<in> set (select_containers (page_ready page_step)) \<and>
   find_pre (page_ready page_step) [0, 0] = [[0, 0, 2]] \<and>
   is_hidden (page_ready page_step) [0, 0, 2] \<and>
   is_hidden ((initCollapsible ^^ 3) (page_ready page_step)) [0, 0, 2]"
proof -
  have a: "[0, 0] \<in> set (select_containers (page_ready page_step))"
    by code_simp
  have b: "find_pre (page_ready page_step) [0, 0] = [[0, 0, 2]]"
    by code_simp
  have c: "is_hidden (page_ready page_step) [0, 0, 2]"
    by code_simp
  have "\<forall>q\<in>set (find_pre (page_ready page_step) [0, 0]). is_hidden (page_ready page_step) q"
    using b c by simp
  from reinit_keeps_hidden [OF a this, of 3] a b c show ?thesis
    by (simp add: find_pre_funpow_init)
qed

text \<open>
  C6. The claim: exactly one child \<^verbatim>\<open>pre\<close> element of a container is the target of
  the initial hide and of the toggle. On the sample page with two code blocks, one of
  them a grandchild of the container, \<^verbatim>\<open>find('pre')\<close> selects both, initialization
  hides both and a click shows both; in the step without a code block it selects none.
\<close>

theorem one_child_pre_counterexample:
  "select_containers page_two_pre = [[0, 0]] \<and>
   find_pre page_two_pre [0, 0] = [[0, 0, 0], [0, 0, 1, 0]] \<and>
   \<not> is_hidden page_two_pre [0, 0, 0] \<and>
   \<not> is_hidden page_two_pre [0, 0, 1, 0] \<and>
   is_hidden (initCollapsible page_two_pre) [0, 0, 0] \<and>
   is_hidden (initCollapsible page_two_pre) [0, 0, 1, 0] \<and>
   \<not> is_hidden (click click_wrapper (initCollapsible page_two_pre)) [0, 0, 0] \<and>
   \<not> is_hidden (click click_wrapper (initCollapsible page_two_pre)) [0, 0, 1, 0] \<and>
   find_pre page_no_pre [0, 0] = []"
  by code_simp

text \<open>
  C6, as the code has it: the initial hide of a container hides every descendant of it
  with tag \<^verbatim>\<open>pre\<close> and changes the display state of no other element, so that
  initialization as a whole hides exactly the \<^verbatim>\<open>pre\<close> descendants of the matched
  containers. Each run of the click listener on a click that is not ignored inverts the
  display state of every descendant of its container with tag \<^verbatim>\<open>pre\<close> and changes
  the display state of no other element; and so does the dispatch of such a click that
  arrives at a container with exactly one listener bound.
\<close>

theorem show_hide_targets_every_pre:
  "(is_hidden (init_container p d) q \<longleftrightarrow>
      is_hidden d q \<or> (strict_prefix p q \<and> has_tag ''pre'' d q)) \<and>
   (is_hidden (initCollapsible d) q \<longleftrightarrow>
      is_hidden d q \<or>
      (has_tag ''pre'' d q \<and> (\<exists>c\<in>set (select_containers d). strict_prefix c q))) \<and>
   (\<not> ignored e d \<longrightarrow>
      (is_hidden (fst (click_handler e p (d, stopped))) q \<longleftrightarrow>
         (if strict_prefix p q \<and> has_tag ''pre'' d q then \<not> is_hidden d q
          else is_hidden d q))) \<and>
   (\<not> ignored e d \<and> listeners d p = 1 \<longrightarrow>
      (is_hidden (bubble e (p # ps) d) q \<longleftrightarrow>
         (if strict_prefix p q \<and> has_tag ''pre'' d q then \<not> is_hidden d q
          else is_hidden d q)))"
proof (intro conjI impI)
  show "is_hidden (init_container p d) q \<longleftrightarrow>
      is_hidden d q \<or> (strict_prefix p q \<and> has_tag ''pre'' d q)"
    by (rule is_hidden_init_container)
next
  show "is_hidden (initCollapsible d) q \<longleftrightarrow>
      is_hidden d q \<or>
      (has_tag ''pre'' d q \<and> (\<exists>c\<in>set (select_containers d). strict_prefix c q))"
    by (rule is_hidden_init)
next
  assume "\<not> ignored e d"
  then show "is_hidden (fst (click_handler e p (d, stopped))) q \<longleftrightarrow>
         (if strict_prefix p q \<and> has_tag ''pre'' d q then \<not> is_hidden d q
          else is_hidden d q)"
    by (rule is_hidden_click_handler)
next
  assume a: "\<not> ignored e d \<and> listeners d p = 1"
  then have "bubble e (p # ps) d = fst (click_handler e p (d, False))"
    by (intro bubble_one_listener) simp_all
  moreover from a have "is_hidden (fst (click_handler e p (d, False))) q \<longleftrightarrow>
         (if strict_prefix p q \<and> has_tag ''pre'' d q then \<not> is_hidden d q
          else is_hidden d q)"
    by (simp add: is_hidden_click_handler)
  ultimately show "is_hidden (bubble e (p # ps) d) q \<longleftrightarrow>
         (if strict_prefix p q \<and> has_tag ''pre'' d q then \<not> is_hidden d q
          else is_hidden d q)"
    by simp
qed

theorem show_hide_targets_every_pre_witness:
  "\<not> ignored click_wrapper (initCollapsible page_two_pre) \<and>
   listeners (initCollapsible page_two_pre) [0, 0] = 1 \<and>
   strict_prefix [0, 0] [0, 0, 1, 0::nat] \<and>
   has_tag ''pre'' page_two_pre [0, 0, 1, 0] \<and>
   has_tag ''pre'' (initCollapsible page_two_pre) [0, 0, 1, 0] \<and>
   is_hidden (init_container [0, 0] page_two_pre) [0, 0, 1, 0] \<and>
   is_hidden (initCollapsible page_two_pre) [0, 0, 1, 0] \<and>
   \<not> is_hidden (fst (click_handler click_wrapper [0, 0] (initCollapsible page_two_pre, False)))
       [0, 0, 1, 0] \<and>
   \<not> is_hidden (bubble click_wrapper [[0, 0], [0], []] (initCollapsible page_two_pre))
       [0, 0, 1, 0]"
proof -
  have a: "\<not> ignored click_wrapper (initCollapsible page_two_pre)"
    by code_simp
  have b: "strict_prefix [0, 0] [0, 0, 1, 0::nat]"
    by code_simp
  have c: "has_tag ''pre'' page_two_pre [0, 0, 1, 0]"
    by code_simp
  have d: "has_tag ''pre'' (initCollapsible page_two_pre) [0, 0, 1, 0]"
    by code_simp
  have e: "is_hidden (initCollapsible page_two_pre) [0, 0, 1, 0]"
    by code_simp
  have f: "listeners (initCollapsible page_two_pre) [0, 0] = 1"
    by code_simp
  from show_hide_targets_every_pre [of "[0, 0]" page_two_pre "[0, 0, 1, 0]"]
    show_hide_targets_every_pre [of "[0, 0]" "initCollapsible page_two_pre" "[0, 0, 1, 0]"
      click_wrapper False "[[0], []]"]
    a b c d e f
  show ?thesis by simp
qed

text \<open>
  C7. The claim: an element is recognized by initialization exactly when it carries the
  marker classes. The element \<open>[0]\<close> of the sample page carries \<^verbatim>\<open>checklist\<close>,
  \<^verbatim>\<open>container\<close> and \<^verbatim>\<open>collapsible\<close> and contains a code block, but has no ancestor
  with the class \<^verbatim>\<open>checklist\<close>: initialization leaves the page as it was, binds no
  listener and hides nothing, and a click does nothing.
\<close>

theorem two_classes_counterexample:
  "has_class ''container'' page_unrooted [0] \<and>
   has_class ''collapsible'' page_unrooted [0] \<and>
   has_class ''checklist'' page_unrooted [0] \<and>
   has_tag ''pre'' page_unrooted [0, 1] \<and>
   select_containers page_unrooted = [] \<and>
   initCollapsible page_unrooted = page_unrooted \<and>
   listeners (initCollapsible page_unrooted) [0] = 0 \<and>
   \<not> is_hidden (initCollapsible page_unrooted) [0, 1] \<and>
   click click_unrooted (initCollapsible page_unrooted) = initCollapsible page_unrooted"
  by code_simp

text \<open>
  C7, as the code has it: initialization binds a listener to an element exactly when
  the element carries \<^verbatim>\<open>container\<close> and \<^verbatim>\<open>collapsible\<close> and a proper ancestor of it
  carries \<^verbatim>\<open>checklist\<close>; and an element that was displayed is hidden by initialization
  exactly when it has tag \<^verbatim>\<open>pre\<close> and lies inside such an element.
\<close>

theorem recognized_iff_marked_under_checklist:
  "listeners (initCollapsible d) p =
     listeners d p +
     (if has_class ''container'' d p \<and> has_class ''collapsible'' d p \<and>
         (\<exists>a. strict_prefix a p \<and> has_class ''checklist'' d a)
      then 1 else 0) \<and>
   (is_hidden (initCollapsible d) q \<longleftrightarrow>
      is_hidden d q \<or>
      (has_tag ''pre'' d q \<and>
       (\<exists>c. strict_prefix c q \<and>
          has_class ''container'' d c \<and> has_class ''collapsible'' d c \<and>
          (\<exists>a. strict_prefix a c \<and> has_class ''checklist'' d a))))"
proof -
  have "(\<exists>p\<in>set (select_containers d). strict_prefix p q) \<longleftrightarrow>
        (\<exists>c. strict_prefix c q \<and>
          has_class ''container'' d c \<and> has_class ''collapsible'' d c \<and>
          (\<exists>a. strict_prefix a c \<and> has_class ''checklist'' d a))"
    unfolding Bex_def select_containers_mem matches_container_iff by blast
  then show ?thesis
    by (simp add: listeners_init is_hidden_init select_containers_mem matches_container_iff)
qed

theorem recognized_iff_marked_under_checklist_witness:
  "has_class ''container'' page_step [0, 0] \<and> has_class ''collapsible'' page_step [0, 0] \<and>
   strict_prefix [0] [0, 0::nat] \<and> has_class ''checklist'' page_step [0] \<and>
   listeners page_step [0, 0] = 0 \<and>
   listeners (initCollapsible page_step) [0, 0] = 1 \<and>
   \<not> (\<exists>a. strict_prefix a [0] \<and> has_class ''checklist'' page_unrooted a) \<and>
   listeners (initCollapsible page_unrooted) [0] = listeners page_unrooted [0]"
proof -
  have a: "has_class ''container'' page_step [0, 0]" "has_class ''collapsible'' page_step [0, 0]"
    "strict_prefix [0] [0, 0::nat]" "has_class ''checklist'' page_step [0]"
    "listeners page_step [0, 0] = 0"
    by code_simp+
  have "\<not> has_class ''checklist'' page_unrooted []"
    by code_simp
  moreover have "\<And>a. strict_prefix a [0::nat] \<Longrightarrow> a = []"
    by (auto simp: strict_prefix_def prefix_Cons)
  ultimately have b: "\<not> (\<exists>a. strict_prefix a [0] \<and> has_class ''checklist'' page_unrooted a)"
    by blast
  from a(3,4) have ex: "\<exists>a. strict_prefix a [0, 0] \<and> has_class ''checklist'' page_step a"
    by blast
  have l1: "listeners (initCollapsible page_step) [0, 0] = 1"
    using conjunct1 [OF recognized_iff_marked_under_checklist [of page_step "[0, 0]"]] a ex
    by simp
  have l2: "listeners (initCollapsible page_unrooted) [0] = listeners page_unrooted [0]"
    using conjunct1 [OF recognized_iff_marked_under_checklist [of page_unrooted "[0]"]] b
    by simp
  from a b l1 l2 show ?thesis
    by blast
qed

text \<open>
  C9. The claim: where nothing matches, be it that there is no container or that a
  container has no code block, initialization changes no state. On the sample page
  whose container has no code block, initialization binds a listener to the container:
  the page is not what it was, and a click that did nothing before now toggles the
  class \<^verbatim>\<open>active\<close>.
\<close>

theorem init_no_pre_counterexample:
  "select_containers page_no_pre = [[0, 0]] \<and>
   find_pre page_no_pre [0, 0] = [] \<and>
   initCollapsible page_no_pre \<noteq> page_no_pre \<and>
   listeners page_no_pre [0, 0] = 0 \<and>
   listeners (initCollapsible page_no_pre) [0, 0] = 1 \<and>
   \<not> has_class ''active'' (click click_no_pre page_no_pre) [0, 0] \<and>
   has_class ''active'' (click click_no_pre (initCollapsible page_no_pre)) [0, 0]"
  by code_simp

text \<open>
  C9, as the code has it: when no container matches, initialization returns the page
  as it is. For a container without a code block the body of the loop only binds the
  listener: its hide works on an empty selection. So on any page, whatever its other
  containers hold, initialization binds one listener to a matched container without a
  code block, changes no class and no tag, and changes the display state of no element
  inside that container; and when no matched container has a code block it changes no
  display state at all. The model has no error value: every library call of the script
  is defined on an empty selection.
\<close>

theorem init_inert_without_match:
  "(select_containers d = [] \<longrightarrow> initCollapsible d = d) \<and>
   (find_pre d p = [] \<longrightarrow> init_container p d = on_click p d) \<and>
   (p \<in> set (select_containers d) \<and> find_pre d p = [] \<longrightarrow>
      listeners (initCollapsible d) p = listeners d p + 1 \<and>
      has_class c (initCollapsible d) q = has_class c d q \<and>
      has_tag t (initCollapsible d) q = has_tag t d q \<and>
      (strict_prefix p q \<longrightarrow> is_hidden (initCollapsible d) q = is_hidden d q)) \<and>
   ((\<forall>p\<in>set (select_containers d). find_pre d p = []) \<longrightarrow>
      has_class c (initCollapsible d) q = has_class c d q \<and>
      has_tag t (initCollapsible d) q = has_tag t d q \<and>
      is_hidden (initCollapsible d) q = is_hidden d q \<and>
      listeners (initCollapsible d) q =
        listeners d q + (if q \<in> set (select_containers d) then 1 else 0))"
proof -
  have none: "select_containers d = [] \<longrightarrow> initCollapsible d = d"
    by (simp add: initCollapsible_def)
  have body: "find_pre d p = [] \<longrightarrow> init_container p d = on_click p d"
    by (simp add: init_container_no_pre)
  have inside: "is_hidden (initCollapsible d) q = is_hidden d q"
    if "find_pre d p = []" and "strict_prefix p q"
  proof -
    from that have "\<not> has_tag ''pre'' d q"
      using find_pre_mem [of q d p] by simp
    then show ?thesis
      by (simp add: is_hidden_init)
  qed
  have everywhere: "is_hidden (initCollapsible d) q = is_hidden d q"
    if "\<forall>p\<in>set (select_containers d). find_pre d p = []"
  proof -
    have "\<not> (has_tag ''pre'' d q \<and> (\<exists>p\<in>set (select_containers d). strict_prefix p q))"
    proof
      assume "has_tag ''pre'' d q \<and> (\<exists>p\<in>set (select_containers d). strict_prefix p q)"
      then obtain p where "p \<in> set (select_containers d)" "q \<in> set (find_pre d p)"
        by (auto simp: find_pre_mem)
      with that show False by auto
    qed
    then show ?thesis unfolding is_hidden_init by blast
  qed
  from none body inside everywhere show ?thesis
    by (simp add: has_class_init has_tag_init listeners_init)
qed

theorem init_inert_without_match_witness:
  "select_containers page_plain = [] \<and> initCollapsible page_plain = page_plain \<and>
   select_containers page_mixed = [[0, 0], [0, 1]] \<and>
   find_pre page_mixed [0, 0] = [[0, 0, 1]] \<and>
   find_pre page_mixed [0, 1] = [] \<and>
   strict_prefix [0, 1] [0, 1, 0::nat] \<and>
   init_container [0, 1] page_mixed = on_click [0, 1] page_mixed \<and>
   listeners (initCollapsible page_mixed) [0, 1] = listeners page_mixed [0, 1] + 1 \<and>
   is_hidden (initCollapsible page_mixed) [0, 1, 0] = is_hidden page_mixed [0, 1, 0] \<and>
   select_containers page_no_pre = [[0, 0]] \<and>
   find_pre page_no_pre [0, 0] = [] \<and>
   is_hidden (initCollapsible page_no_pre) [0, 0, 0] = is_hidden page_no_pre [0, 0, 0] \<and>
   listeners (initCollapsible page_no_pre) [0, 0] = listeners page_no_pre [0, 0] + 1"
proof -
  have a: "select_containers page_plain = []"
    by code_simp
  have b: "select_containers page_no_pre = [[0, 0]]" "find_pre page_no_pre [0, 0] = []"
    by code_simp+
  then have c: "\<forall>p\<in>set (select_containers page_no_pre). find_pre page_no_pre p = []"
    by simp
  have m: "select_containers page_mixed = [[0, 0], [0, 1]]"
    "find_pre page_mixed [0, 0] = [[0, 0, 1]]" "find_pre page_mixed [0, 1] = []"
    "strict_prefix [0, 1] [0, 1, 0::nat]"
    by code_simp+
  from init_inert_without_match [of page_plain]
    init_inert_without_match [of page_mixed "[0, 1]" _ "[0, 1, 0]"]
    init_inert_without_match [of page_no_pre "[0, 0]" _ "[0, 0]"]
    init_inert_without_match [of page_no_pre "[0, 0]" _ "[0, 0, 0]"] a b c m
  show ?thesis by simp
qed

section \<open>Content inserted after the page has loaded\<close>

text \<open>
  C5. The claim: a container inserted after page load answers a click the way a
  container present at page load does. The insertion runs \<^verbatim>\<open>initCollapsible\<close> once for
  every element with class \<^verbatim>\<open>checklist\<close> from the inserted element up to the root, and
  every run binds one more listener to every matched container. A step inserted into
  a checklist nested in a checklist gets two listeners: the click that expands it when
  it is present at page load toggles twice and leaves it collapsed. The same happens
  to a step inserted into a plain checklist once a second step has been inserted
  after it, while a click right after its own insertion does expand it.
\<close>

theorem inserted_container_differs_from_static:
  "insert_child [0, 0] 1 new_step page_nested = page_nested_static \<and>
   has_class ''active'' (click click_inserted (page_ready page_nested_static)) [0, 0, 1] \<and>
   \<not> is_hidden (click click_inserted (page_ready page_nested_static)) [0, 0, 1, 1] \<and>
   [0, 0, 1] \<in> set (select_containers (insert_node [0, 0] 1 new_step (page_ready page_nested))) \<and>
   listeners (insert_node [0, 0] 1 new_step (page_ready page_nested)) [0, 0, 1] = 2 \<and>
   \<not> has_class ''active''
       (click click_inserted (insert_node [0, 0] 1 new_step (page_ready page_nested))) [0, 0, 1] \<and>
   is_hidden
       (click click_inserted (insert_node [0, 0] 1 new_step (page_ready page_nested))) [0, 0, 1, 1] \<and>
   listeners page_two_inserts [0, 1] = 2 \<and>
   click click_new page_two_inserts = page_two_inserts \<and>
   has_class ''active'' (click click_new (insert_node [0] 1 new_step (page_ready page_step))) [0, 1]"
  by code_simp

text \<open>
  C10. The \<^verbatim>\<open>DOMNodeInserted\<close> listener, run for an element that is or lies under an
  element with class \<^verbatim>\<open>checklist\<close>, leaves every code block of every matched container
  hidden and the classes of every element as they were. So an expanded container keeps
  the class \<^verbatim>\<open>active\<close> while its code block is hidden: on the sample page, after a
  click has expanded the step, the insertion of one more element into the checklist
  leaves the step with the class \<^verbatim>\<open>active\<close> and its code block hidden.
\<close>

theorem reinit_hides_expanded:
  assumes "list_ex (has_class ''checklist'' d) (prefixes t)"
  shows "(\<forall>p\<in>set (select_containers (node_inserted t d)).
            \<forall>q\<in>set (find_pre (node_inserted t d) p). is_hidden (node_inserted t d) q) \<and>
         (\<forall>c p. has_class c (node_inserted t d) p = has_class c d p) \<and>
         (has_class ''active'' page_expanded [0, 0] \<and>
          \<not> is_hidden page_expanded [0, 0, 2] \<and>
          [0, 0] \<in> set (select_containers (insert_node [0] 1 (el ''div'' [] []) page_expanded)) \<and>
          [0, 0, 2] \<in> set (find_pre (insert_node [0] 1 (el ''div'' [] []) page_expanded) [0, 0]) \<and>
          has_class ''active'' (insert_node [0] 1 (el ''div'' [] []) page_expanded) [0, 0] \<and>
          is_hidden (insert_node [0] 1 (el ''div'' [] []) page_expanded) [0, 0, 2])"
proof -
  define n where "n = length (filter (has_class ''checklist'' d) (rev (prefixes t)))"
  from assms have "filter (has_class ''checklist'' d) (rev (prefixes t)) \<noteq> []"
    by (auto simp: list_ex_iff filter_empty_conv)
  then obtain m where m: "n = Suc m"
    by (cases n) (auto simp: n_def)
  have ni: "node_inserted t d = initCollapsible ((initCollapsible ^^ m) d)"
    by (simp add: node_inserted_def n_def [symmetric] m)
  have "\<forall>p\<in>set (select_containers (node_inserted t d)).
          \<forall>q\<in>set (find_pre (node_inserted t d) p). is_hidden (node_inserted t d) q"
    unfolding ni
    by (auto simp: select_containers_init find_pre_init find_pre_mem is_hidden_init)
  moreover have "\<forall>c p. has_class c (node_inserted t d) p = has_class c d p"
    by (simp add: node_inserted_def has_class_funpow_init)
  moreover have "has_class ''active'' page_expanded [0, 0]"
    by code_simp
  moreover have "\<not> is_hidden page_expanded [0, 0, 2]"
    by code_simp
  moreover have
    "[0, 0] \<in> set (select_containers (insert_node [0] 1 (el ''div'' [] []) page_expanded))"
    by code_simp
  moreover have
    "[0, 0, 2] \<in> set (find_pre (insert_node [0] 1 (el ''div'' [] []) page_expanded) [0, 0])"
    by code_simp
  moreover have
    "has_class ''active'' (insert_node [0] 1 (el ''div'' [] []) page_expanded) [0, 0]"
    by code_simp
  moreover have "is_hidden (insert_node [0] 1 (el ''div'' [] []) page_expanded) [0, 0, 2]"
    by code_simp
  ultimately show ?thesis
    by blast
qed

theorem reinit_hides_expanded_witness:
  "list_ex (has_class ''checklist'' (insert_child [0] 1 (el ''div'' [] []) page_expanded))
     (prefixes [0, 1]) \<and>
   insert_node [0] 1 (el ''div'' [] []) page_expanded =
     node_inserted [0, 1] (insert_child [0] 1 (el ''div'' [] []) page_expanded) \<and>
   has_class ''active'' (insert_node [0] 1 (el ''div'' [] []) page_expanded) [0, 0] \<and>
   is_hidden (insert_node [0] 1 (el ''div'' [] []) page_expanded) [0, 0, 2]"
proof -
  have a: "list_ex (has_class ''checklist'' (insert_child [0] 1 (el ''div'' [] []) page_expanded))
     (prefixes [0, 1])"
    by code_simp
  have b: "insert_node [0] 1 (el ''div'' [] []) page_expanded =
     node_inserted [0, 1] (insert_child [0] 1 (el ''div'' [] []) page_expanded)"
    by code_simp
  from reinit_hides_expanded [OF a] a b show ?thesis
    by blast
qed

end
